theory Spec2Isabelle
  imports Main "HOL-Library.Word" "HOL-Library.Signed_Division"
begin

section \<open>The Linux platform layer (platform_gcc.h)\<close>

text \<open>
  Every wrapper of the header makes one call into the C library and turns its return
  code into either a normal return or a C++ exception. The C library call is a
  parameter of the model (a function from the call's arguments to what it hands back),
  so each theorem holds for whatever the operating system answers. A thrown exception
  is the left summand of the result, a normal return the right one.

  The \<open>errno\<close> constants \<open>EBUSY\<close>, \<open>ETIMEDOUT\<close> and \<open>ENOMEM\<close> come from
  \<open><cerrno>\<close> and \<open>systemErrorToString\<close> is only declared in the header; they are
  parameters as well. Return codes are C \<open>int\<close>s that are only compared, never
  computed with, so they are modelled as \<open>int\<close>.
\<close>

subsection \<open>Exceptions\<close>

text \<open>
  \<open>RunTimeException(__FILE__, __LINE__)\<close> and
  \<open>RunTimeException(__FILE__, __LINE__, systemErrorToString(cc))\<close>: the line of the
  throw, and the message when the throw site passes one. \<open>__FILE__\<close> is the same at
  every site. \<open>bad_alloc\<close> is \<open>std::bad_alloc\<close>.
\<close>

datatype exn =
    RunTimeException (line: nat) (message: "string option")
  | bad_alloc

subsection \<open>Mutex\<close>

definition mutexDestroy :: "(int \<Rightarrow> string) \<Rightarrow> ('m \<Rightarrow> int) \<Rightarrow> 'm \<Rightarrow> exn + unit" where
  "mutexDestroy systemErrorToString pthread_mutex_destroy handle =
     (let cc = pthread_mutex_destroy handle
      in if cc \<noteq> 0 then Inl (RunTimeException 206 (Some (systemErrorToString cc)))
         else Inr ())"

definition mutexLock :: "(int \<Rightarrow> string) \<Rightarrow> ('m \<Rightarrow> int) \<Rightarrow> 'm \<Rightarrow> exn + unit" where
  "mutexLock systemErrorToString pthread_mutex_lock handle =
     (let cc = pthread_mutex_lock handle
      in if cc \<noteq> 0 then Inl (RunTimeException 215 (Some (systemErrorToString cc)))
         else Inr ())"

definition mutexTryLock :: "int \<Rightarrow> (int \<Rightarrow> string) \<Rightarrow> ('m \<Rightarrow> int) \<Rightarrow> 'm \<Rightarrow> exn + bool" where
  "mutexTryLock EBUSY systemErrorToString pthread_mutex_trylock handle =
     (let cc = pthread_mutex_trylock handle;
          success = (cc = 0)
      in if success \<or> cc = EBUSY then Inr success
         else Inl (RunTimeException 229 (Some (systemErrorToString cc))))"

definition mutexUnlock :: "(int \<Rightarrow> string) \<Rightarrow> ('m \<Rightarrow> int) \<Rightarrow> 'm \<Rightarrow> exn + unit" where
  "mutexUnlock systemErrorToString pthread_mutex_unlock handle =
     (let cc = pthread_mutex_unlock handle
      in if cc \<noteq> 0 then Inl (RunTimeException 238 (Some (systemErrorToString cc)))
         else Inr ())"

subsection \<open>Condition variables\<close>

text \<open>
  \<open>pthread_cond_init\<close> hands back its return code and the initialised condition
  variable.
\<close>

definition mutexSignalCreate :: "(unit \<Rightarrow> int \<times> 's) \<Rightarrow> exn + 's" where
  "mutexSignalCreate pthread_cond_init =
     (case pthread_cond_init () of
        (cc, ret) \<Rightarrow> if cc \<noteq> 0 then Inl (RunTimeException 247 None) else Inr ret)"

definition mutexSignalDestroy :: "('s \<Rightarrow> int) \<Rightarrow> 's \<Rightarrow> exn + unit" where
  "mutexSignalDestroy pthread_cond_destroy handle =
     (if pthread_cond_destroy handle \<noteq> 0 then Inl (RunTimeException 256 None)
      else Inr ())"

definition mutexSignalWait :: "('s \<Rightarrow> 'm \<Rightarrow> int) \<Rightarrow> 's \<Rightarrow> 'm \<Rightarrow> exn + unit" where
  "mutexSignalWait pthread_cond_wait signal lockedMutex =
     (if pthread_cond_wait signal lockedMutex \<noteq> 0 then Inl (RunTimeException 264 None)
      else Inr ())"

definition mutexSignalNotify :: "('s \<Rightarrow> int) \<Rightarrow> 's \<Rightarrow> exn + unit" where
  "mutexSignalNotify pthread_cond_signal handle =
     (if pthread_cond_signal handle \<noteq> 0 then Inl (RunTimeException 285 None)
      else Inr ())"

subsection \<open>Time values\<close>

text \<open>
  The integers of the header are those of Linux on a 64-bit target: \<open>int64_t\<close>,
  \<open>long\<close> and \<open>time_t\<close> are 64-bit two's complement words. \<open>+\<close> and \<open>*\<close> on words
  wrap around; \<open>sint\<close> reads the signed value. C's \<open>/\<close> and \<open>%\<close> truncate towards
  zero (\<open>sdiv\<close> and \<open>smod\<close> on the signed values).
\<close>

type_synonym int64_t = "64 word"

definition c_div :: "int64_t \<Rightarrow> int64_t \<Rightarrow> int64_t" where
  "c_div a b = word_of_int (sint a sdiv sint b)"

definition c_rem :: "int64_t \<Rightarrow> int64_t \<Rightarrow> int64_t" where
  "c_rem a b = word_of_int (sint a smod sint b)"

record timespec =
  tv_sec :: int64_t
  tv_nsec :: int64_t

text \<open>
  Modelled from the spec: class \<open>Time\<close> of \<open>trz/engine/internal/time.h\<close>, which is not
  among the sources. The header builds a \<open>Time\<close> from an \<open>int64_t\<close> count of
  nanoseconds (\<open>HighResolutionTime\<close>) and reads it back through \<open>extractSeconds\<close>
  and \<open>extractNanoseconds\<close> (\<open>mutexSignalWait\<close>): a \<open>Time\<close> is that count, split by C
  division into whole seconds and the remaining nanoseconds. The remainder is below
  \<open>10\<^sup>9\<close> in magnitude, so it is the same number in any signed type of 32 bits or
  more, and so is the sum of two of them.
\<close>

datatype Time = Time (nanoseconds: int64_t)

definition extractSeconds :: "Time \<Rightarrow> int64_t" where
  "extractSeconds t = c_div (nanoseconds t) 1000000000"

definition extractNanoseconds :: "Time \<Rightarrow> int64_t" where
  "extractNanoseconds t = c_rem (nanoseconds t) 1000000000"

datatype clockid_t = CLOCK_REALTIME | CLOCK_MONOTONIC

text \<open>
  \<open>HighResolutionTime::operator()\<close>. \<open>clock_gettime\<close> hands back its return code and
  the \<open>timespec\<close> it filled in.
\<close>

definition HighResolutionTime :: "(clockid_t \<Rightarrow> int \<times> timespec) \<Rightarrow> exn + Time" where
  "HighResolutionTime clock_gettime =
     (case clock_gettime CLOCK_MONOTONIC of
        (rc, t) \<Rightarrow>
          if rc \<noteq> 0 then Inl (RunTimeException 93 None)
          else Inr (Time (tv_sec t * 1000000000 + tv_nsec t)))"

text \<open>
  The timed \<open>mutexSignalWait\<close>. Lines 270 to 273 compute the \<open>timespec\<close> handed to
  \<open>pthread_cond_timedwait\<close>; they are a definition of their own so that the deadline
  can be spoken about.
\<close>

definition mutexSignalWait_tout :: "Time \<Rightarrow> Time \<Rightarrow> timespec" where
  "mutexSignalWait_tout pTimeOut currentEpochTime =
     (let nsec = extractNanoseconds pTimeOut + extractNanoseconds currentEpochTime;
          sec = extractSeconds pTimeOut + extractSeconds currentEpochTime
                  + c_div nsec 1000000000
      in \<lparr>tv_sec = sec, tv_nsec = c_rem nsec 1000000000\<rparr>)"

definition mutexSignalWait_timed ::
  "int \<Rightarrow> ('s \<Rightarrow> 'm \<Rightarrow> timespec \<Rightarrow> int) \<Rightarrow> 's \<Rightarrow> 'm \<Rightarrow> Time \<Rightarrow> Time \<Rightarrow> exn + unit" where
  "mutexSignalWait_timed ETIMEDOUT pthread_cond_timedwait signal lockedMutex
       pTimeOut currentEpochTime =
     (let tout = mutexSignalWait_tout pTimeOut currentEpochTime;
          cc = pthread_cond_timedwait signal lockedMutex tout
      in if cc \<noteq> 0 \<and> cc \<noteq> ETIMEDOUT then Inl (RunTimeException 277 None)
         else Inr ())"

subsection \<open>Aligned allocation\<close>

text \<open>
  \<open>posix_memalign\<close> hands back its return code and the value of the out-parameter
  \<open>ret\<close> after the call. \<open>size_t\<close> is a 64-bit word; \<open>sz\<close> is the source's
  parameter \<open>size\<close>.
\<close>

definition alignMalloc ::
  "int \<Rightarrow> (64 word \<Rightarrow> 64 word \<Rightarrow> int \<times> 'p) \<Rightarrow> 64 word \<Rightarrow> 64 word \<Rightarrow> exn + 'p" where
  "alignMalloc ENOMEM posix_memalign alignement sz =
     (case posix_memalign alignement sz of
        (cc, ret) \<Rightarrow>
          if cc \<noteq> 0 then
            (if cc \<noteq> ENOMEM then Inl (RunTimeException 152 None) else Inl bad_alloc)
          else Inr ret)"

section \<open>The scheduling and reference core, modelled from the specification\<close>

text \<open>
  The build file lists \<open>RefMapper.cpp\<close>, \<open>actor.cpp\<close>, \<open>node.cpp\<close> and \<open>engine.cpp\<close>,
  but none of them is among the sources. The Reference Registry, the Actor, the Worker
  and the Engine are therefore modelled from their contracts in the specification. The
  registry is one shared table guarded by one exclusion mechanism, so its operations are
  atomic and the operations of all threads happen one after another in the order in
  which they take that guard: an execution is a list of operations.
\<close>

subsection \<open>Reference Registry\<close>

type_synonym ActorId = nat
type_synonym WorkerId = nat

text \<open>
  Modelled from the spec: the Reference Registry Entry (\<open>RefMapper.cpp\<close> is missing), the
  tuple of actor id, owning-Worker identity and liveness flag. The id is the key under
  which the table holds the entry.
\<close>

record entry =
  owner :: WorkerId
  live :: bool

text \<open>
  Modelled from the spec: the registry table (\<open>RefMapper.cpp\<close> is missing), a mapping from
  actor id to entry, and the next id to hand out, which makes every allocated id fresh.
\<close>

record registry =
  next_id :: ActorId
  table :: "ActorId \<rightharpoonup> entry"

text \<open>
  Modelled from the spec: the registry that \<open>Engine.start\<close> creates (\<open>RefMapper.cpp\<close> is
  missing); it has no entries.
\<close>

definition registry_init :: registry where
  "registry_init = \<lparr>next_id = 0, table = Map.empty\<rparr>"

text \<open>
  Modelled from the spec: the result of \<open>resolve\<close> (\<open>RefMapper.cpp\<close> is missing), a live
  handle (the actor's id and its owning Worker) or NotFound.
\<close>

datatype resolution = LiveHandle ActorId WorkerId | NotFound

text \<open>
  Modelled from the spec: \<open>register(actor) -> ActorId\<close> (\<open>RefMapper.cpp\<close> is missing)
  allocates a fresh id, inserts a live entry and returns the id. The Worker that
  constructs the actor calls it and becomes the owner.
\<close>

definition register :: "WorkerId \<Rightarrow> registry \<Rightarrow> ActorId \<times> registry" where
  "register w r =
     (next_id r,
      r\<lparr>next_id := Suc (next_id r),
        table := (table r)(next_id r \<mapsto> \<lparr>owner = w, live = True\<rparr>)\<rparr>)"

text \<open>
  Modelled from the spec: \<open>resolve(id) -> LiveHandle | NotFound\<close> (\<open>RefMapper.cpp\<close> is
  missing) looks up the entry; it returns a handle if the entry is live, and NotFound if
  the entry does not exist or its liveness flag is cleared.
\<close>

definition resolve :: "registry \<Rightarrow> ActorId \<Rightarrow> resolution" where
  "resolve r i =
     (case table r i of
        None \<Rightarrow> NotFound
      | Some e \<Rightarrow> if live e then LiveHandle i (owner e) else NotFound)"

text \<open>
  Modelled from the spec: \<open>invalidate(id)\<close> (\<open>RefMapper.cpp\<close> is missing) clears the
  liveness flag of the entry. An id without an entry has no flag to clear.
\<close>

definition invalidate :: "ActorId \<Rightarrow> registry \<Rightarrow> registry" where
  "invalidate i r =
     (case table r i of
        None \<Rightarrow> r
      | Some e \<Rightarrow> r\<lparr>table := (table r)(i \<mapsto> e\<lparr>live := False\<rparr>)\<rparr>)"

text \<open>
  Modelled from the spec: the calls that the threads of the system make on the shared
  registry (\<open>RefMapper.cpp\<close> is missing), in the order in which the guard admits them.
  \<open>Register w\<close> is a call by Worker \<open>w\<close>; \<open>resolve\<close> does not change the table.
\<close>

datatype registry_op = Register WorkerId | Resolve ActorId | Invalidate ActorId

text \<open>Modelled from the spec: the effect of one registry call on the table.\<close>

fun apply_op :: "registry_op \<Rightarrow> registry \<Rightarrow> registry" where
  "apply_op (Register w) r = snd (register w r)"
| "apply_op (Resolve i) r = r"
| "apply_op (Invalidate i) r = invalidate i r"

text \<open>Modelled from the spec: a sequence of registry calls, made one after another.\<close>

definition run_ops :: "registry_op list \<Rightarrow> registry \<Rightarrow> registry" where
  "run_ops ops r = fold apply_op ops r"

subsection \<open>Actor\<close>

text \<open>
  Modelled from the spec: what a handler may request while it runs (\<open>actor.cpp\<close> is
  missing): spawning a new actor, sending an event to another actor, or its own
  destruction.
\<close>

datatype 'e request = SpawnActor | SendEvent ActorId 'e | DestroySelf

text \<open>
  Modelled from the spec: an event handler (\<open>actor.cpp\<close> is missing). It runs on the
  actor's private state and gives the new private state and its requests.
\<close>

type_synonym ('e, 's) handler = "'e \<Rightarrow> 's \<Rightarrow> 's \<times> 'e request list"

text \<open>
  Modelled from the spec: the Actor (\<open>actor.cpp\<close> is missing) owns private mutable state
  and a mailbox, the ordered sequence of pending events, and knows whether it still
  accepts events. \<open>enqueued\<close> and \<open>handled\<close> are instrumentation: the events that
  entered the mailbox and the events whose handler was executed, each in order of
  occurrence. No operation reads them.
\<close>

record ('e, 's) actor =
  mailbox :: "'e list"
  accepting :: bool
  private_state :: 's
  enqueued :: "'e list"
  handled :: "'e list"

text \<open>
  Modelled from the spec: a constructed actor (\<open>actor.cpp\<close> is missing): initialised
  state, empty mailbox, accepting events.
\<close>

definition new_actor :: "'s \<Rightarrow> ('e, 's) actor" where
  "new_actor s =
     \<lparr>mailbox = [], accepting = True, private_state = s, enqueued = [], handled = []\<rparr>"

text \<open>
  Modelled from the spec: \<open>deliver(event)\<close> (\<open>actor.cpp\<close> is missing) appends to the
  mailbox if the actor is still accepting events, otherwise is a no-op.
\<close>

definition deliver :: "'e \<Rightarrow> ('e, 's) actor \<Rightarrow> ('e, 's) actor" where
  "deliver ev a =
     (if accepting a
      then a\<lparr>mailbox := mailbox a @ [ev], enqueued := enqueued a @ [ev]\<rparr>
      else a)"

text \<open>
  Modelled from the spec: \<open>processOne() -> bool\<close> (\<open>actor.cpp\<close> is missing) executes
  exactly one pending event's handler and returns whether more events remain. The
  mailbox is first-in, first-out, so the event is the oldest pending one. An actor that
  requests its own destruction stops accepting new events. The requests of the handler
  are handed to the Worker. With no pending event there is nothing to execute.
\<close>

definition processOne ::
  "('e, 's) handler \<Rightarrow> ('e, 's) actor \<Rightarrow> bool \<times> 'e request list \<times> ('e, 's) actor" where
  "processOne h a =
     (case mailbox a of
        [] \<Rightarrow> (False, [], a)
      | ev # rest \<Rightarrow>
          (case h ev (private_state a) of
             (s', reqs) \<Rightarrow>
               (rest \<noteq> [], reqs,
                a\<lparr>mailbox := rest,
                  accepting := accepting a \<and> DestroySelf \<notin> set reqs,
                  private_state := s',
                  handled := handled a @ [ev]\<rparr>)))"

text \<open>
  Modelled from the spec: what the owning Worker does with one actor (\<open>node.cpp\<close> is
  missing): it delivers an event or calls \<open>processOne\<close>.
\<close>

datatype 'e actor_op = Deliver 'e | ProcessOne

text \<open>Modelled from the spec: the effect of one such call on the actor.\<close>

fun step_actor :: "('e, 's) handler \<Rightarrow> 'e actor_op \<Rightarrow> ('e, 's) actor \<Rightarrow> ('e, 's) actor" where
  "step_actor h (Deliver ev) a = deliver ev a"
| "step_actor h ProcessOne a = snd (snd (processOne h a))"

text \<open>Modelled from the spec: a sequence of such calls, made by the owning Worker.\<close>

definition run_actor ::
  "('e, 's) handler \<Rightarrow> 'e actor_op list \<Rightarrow> ('e, 's) actor \<Rightarrow> ('e, 's) actor" where
  "run_actor h ops a = fold (step_actor h) ops a"

text \<open>Modelled from the spec: the events that a sequence of calls delivers, in order.\<close>

fun delivered :: "'e actor_op list \<Rightarrow> 'e list" where
  "delivered [] = []"
| "delivered (Deliver ev # ops) = ev # delivered ops"
| "delivered (ProcessOne # ops) = delivered ops"

subsection \<open>Worker and Engine\<close>










section \<open>Properties of the platform layer\<close>

subsection \<open>mutexTryLock\<close>

text \<open>
  C5. \<open>mutexTryLock\<close> has exactly three outcomes. With \<open>cc\<close> the return code of
  \<open>pthread_mutex_trylock\<close>: it returns \<open>true\<close> when \<open>cc\<close> is 0, returns \<open>false\<close> when
  \<open>cc\<close> is \<open>EBUSY\<close>, and throws a \<open>RunTimeException\<close> (carrying the system error
  text of \<open>cc\<close>) for every other code; so a boolean comes back only for 0 and
  \<open>EBUSY\<close>. \<open>EBUSY\<close> is an error number, hence not 0.
\<close>

theorem mutexTryLock_three_outcomes:
  assumes "EBUSY \<noteq> 0"
  shows "(pthread_mutex_trylock handle = 0 \<longrightarrow>
            mutexTryLock EBUSY systemErrorToString pthread_mutex_trylock handle = Inr True)
       \<and> (pthread_mutex_trylock handle = EBUSY \<longrightarrow>
            mutexTryLock EBUSY systemErrorToString pthread_mutex_trylock handle = Inr False)
       \<and> (pthread_mutex_trylock handle \<noteq> 0 \<and> pthread_mutex_trylock handle \<noteq> EBUSY \<longrightarrow>
            mutexTryLock EBUSY systemErrorToString pthread_mutex_trylock handle =
              Inl (RunTimeException 229
                     (Some (systemErrorToString (pthread_mutex_trylock handle)))))
       \<and> ((\<exists>b. mutexTryLock EBUSY systemErrorToString pthread_mutex_trylock handle = Inr b)
            \<longleftrightarrow> pthread_mutex_trylock handle = 0 \<or> pthread_mutex_trylock handle = EBUSY)"
  using assms by (auto simp: mutexTryLock_def Let_def)

theorem mutexTryLock_three_outcomes_witness:
  "(16::int) \<noteq> 0
   \<and> mutexTryLock 16 (\<lambda>cc. ''errno'') (\<lambda>h::unit. 0) () = Inr True
   \<and> mutexTryLock 16 (\<lambda>cc. ''errno'') (\<lambda>h::unit. 16) () = Inr False
   \<and> mutexTryLock 16 (\<lambda>cc. ''errno'') (\<lambda>h::unit. 22) () =
       Inl (RunTimeException 229 (Some ''errno''))"
proof -
  have nz: "(16::int) \<noteq> 0" by simp
  show ?thesis
    using nz
      mutexTryLock_three_outcomes [OF nz, of "\<lambda>h::unit. 0" "()" "\<lambda>cc. ''errno''"]
      mutexTryLock_three_outcomes [OF nz, of "\<lambda>h::unit. 16" "()" "\<lambda>cc. ''errno''"]
      mutexTryLock_three_outcomes [OF nz, of "\<lambda>h::unit. 22" "()" "\<lambda>cc. ''errno''"]
    by simp
qed

subsection \<open>Signed 64-bit arithmetic without overflow\<close>

text \<open>
  The word operations of the model wrap around. The lemmas below read their results as
  signed numbers and show that, on the values that occur, nothing wraps.
\<close>

lemma smod_bounds:
  fixes k :: int
  shows "- 1000000000 < k smod 1000000000" "k smod 1000000000 < 1000000000"
    "0 \<le> k \<Longrightarrow> 0 \<le> k smod 1000000000"
  by (auto simp: signed_modulo_int_def sgn_if)

lemma sdiv_abs_le:
  fixes k :: int
  shows "\<bar>k sdiv 1000000000\<bar> \<le> \<bar>k\<bar> div 1000000000"
  by (simp add: signed_divide_int_def abs_mult sgn_if)

lemma sint_in_range:
  fixes k :: int
  assumes "- 9223372036854775808 \<le> k" "k < 9223372036854775808"
  shows "sint (word_of_int k :: 64 word) = k"
  using assms by (simp add: signed_of_int signed_take_bit_int_eq_self)

lemma sint_bounds64:
  fixes w :: "64 word"
  shows "- 9223372036854775808 \<le> sint w" "sint w < 9223372036854775808"
  using sint_ge [of w] sint_lt [of w] by simp_all

lemma sdiv_bounds64:
  fixes w :: "64 word"
  shows "- 9223372036 \<le> sint w sdiv 1000000000" "sint w sdiv 1000000000 \<le> 9223372036"
proof -
  have "\<bar>sint w\<bar> \<le> 9223372036854775808"
    using sint_bounds64 [of w] by simp
  then have "\<bar>sint w\<bar> div 1000000000 \<le> 9223372036854775808 div (1000000000::int)"
    by (rule zdiv_mono1) simp
  then have "\<bar>sint w sdiv 1000000000\<bar> \<le> 9223372036"
    using sdiv_abs_le [of "sint w"] by simp
  then show "- 9223372036 \<le> sint w sdiv 1000000000" "sint w sdiv 1000000000 \<le> 9223372036"
    by simp_all
qed

lemma sint_c_div: "sint (c_div a 1000000000) = sint a sdiv 1000000000"
  unfolding c_div_def using sdiv_bounds64 [of a]
  by (simp add: sint_in_range)

lemma sint_c_rem: "sint (c_rem a 1000000000) = sint a smod 1000000000"
  unfolding c_rem_def using smod_bounds(1,2) [of "sint a"]
  by (simp add: sint_in_range)

lemma sint_add_in_range:
  fixes a b :: "64 word"
  assumes "- 9223372036854775808 \<le> sint a + sint b" "sint a + sint b < 9223372036854775808"
  shows "sint (a + b) = sint a + sint b"
  using assms by (simp add: sint_word_ariths signed_take_bit_int_eq_self)

lemma word_sum_sint:
  fixes s n :: "64 word"
  assumes "- 9223372036854775808 \<le> sint s * 1000000000 + sint n"
      and "sint s * 1000000000 + sint n < 9223372036854775808"
  shows "sint (s * 1000000000 + n) = sint s * 1000000000 + sint n"
proof -
  have "s * 1000000000 + n = word_of_int (sint s * 1000000000 + sint n)"
    by simp
  then show ?thesis
    using assms by (simp only: sint_in_range)
qed

lemma sint_extract:
  "sint (extractSeconds t) = sint (nanoseconds t) sdiv 1000000000"
  "sint (extractNanoseconds t) = sint (nanoseconds t) smod 1000000000"
  by (simp_all add: extractSeconds_def extractNanoseconds_def sint_c_div sint_c_rem)

lemma sint_extract_total:
  "sint (extractSeconds t) * 1000000000 + sint (extractNanoseconds t) = sint (nanoseconds t)"
  by (simp add: sint_extract sdiv_mult_smod_eq)

subsection \<open>The deadline of the timed wait\<close>

lemma sint_nsec_sum:
  "sint (extractNanoseconds a + extractNanoseconds b) =
     sint (extractNanoseconds a) + sint (extractNanoseconds b)"
  using smod_bounds(1,2) [of "sint (nanoseconds a)"] smod_bounds(1,2) [of "sint (nanoseconds b)"]
  by (intro sint_add_in_range) (simp_all add: sint_extract)

lemma sint_tout_sec:
  "sint (tv_sec (mutexSignalWait_tout a b)) =
     sint (extractSeconds a) + sint (extractSeconds b)
       + (sint (extractNanoseconds a) + sint (extractNanoseconds b)) sdiv 1000000000"
proof -
  let ?n = "extractNanoseconds a + extractNanoseconds b"
  have n: "sint ?n = sint (extractNanoseconds a) + sint (extractNanoseconds b)"
    by (rule sint_nsec_sum)
  have ab: "sint (extractSeconds a + extractSeconds b) =
              sint (extractSeconds a) + sint (extractSeconds b)"
    using sdiv_bounds64 [of "nanoseconds a"] sdiv_bounds64 [of "nanoseconds b"]
    by (intro sint_add_in_range) (simp_all add: sint_extract)
  have carry: "- 9223372036 \<le> sint (c_div ?n 1000000000)"
              "sint (c_div ?n 1000000000) \<le> 9223372036"
    using sdiv_bounds64 [of ?n] by (simp_all add: sint_c_div)
  have "sint (extractSeconds a + extractSeconds b + c_div ?n 1000000000) =
          sint (extractSeconds a + extractSeconds b) + sint (c_div ?n 1000000000)"
    using sdiv_bounds64 [of "nanoseconds a"] sdiv_bounds64 [of "nanoseconds b"] carry
    by (intro sint_add_in_range) (simp_all add: ab sint_extract)
  then show ?thesis
    by (simp add: mutexSignalWait_tout_def Let_def ab sint_c_div n)
qed

lemma sint_tout_nsec:
  "sint (tv_nsec (mutexSignalWait_tout a b)) =
     (sint (extractNanoseconds a) + sint (extractNanoseconds b)) smod 1000000000"
  by (simp add: mutexSignalWait_tout_def Let_def sint_c_rem sint_nsec_sum)

lemma tout_total:
  "sint (tv_sec (mutexSignalWait_tout a b)) * 1000000000
     + sint (tv_nsec (mutexSignalWait_tout a b)) =
   sint (nanoseconds a) + sint (nanoseconds b)"
proof -
  let ?n = "sint (extractNanoseconds a) + sint (extractNanoseconds b)"
  have "sint (tv_sec (mutexSignalWait_tout a b)) * 1000000000
          + sint (tv_nsec (mutexSignalWait_tout a b)) =
        (sint (extractSeconds a) + sint (extractSeconds b)) * 1000000000
          + (?n sdiv 1000000000 * 1000000000 + ?n smod 1000000000)"
    by (simp only: sint_tout_sec sint_tout_nsec distrib_right add.assoc)
  also have "\<dots> = (sint (extractSeconds a) + sint (extractSeconds b)) * 1000000000 + ?n"
    by (simp only: sdiv_mult_smod_eq)
  also have "\<dots> = (sint (extractSeconds a) * 1000000000 + sint (extractNanoseconds a))
                 + (sint (extractSeconds b) * 1000000000 + sint (extractNanoseconds b))"
    by (simp add: algebra_simps)
  finally show ?thesis
    by (simp only: sint_extract_total)
qed

lemma tout_nsec_normalized:
  assumes "0 \<le> sint (extractNanoseconds a)" "0 \<le> sint (extractNanoseconds b)"
  shows "0 \<le> sint (tv_nsec (mutexSignalWait_tout a b))"
    and "sint (tv_nsec (mutexSignalWait_tout a b)) < 1000000000"
  using assms
    smod_bounds(3) [of "sint (extractNanoseconds a) + sint (extractNanoseconds b)"]
    smod_bounds(2) [of "sint (extractNanoseconds a) + sint (extractNanoseconds b)"]
  by (simp_all add: sint_tout_nsec)

text \<open>
  C9. In the timed \<open>mutexSignalWait\<close>, for two \<open>Time\<close> values whose nanoseconds
  components are each in \<open>[0, 10\<^sup>9)\<close>, the computed deadline is exactly the sum of the
  two: \<open>tout.tv_sec * 10\<^sup>9 + tout.tv_nsec\<close> is the sum of the inputs' nanosecond counts
  (as numbers, so nothing has wrapped), and \<open>tout.tv_nsec\<close> is in \<open>[0, 10\<^sup>9)\<close>.
\<close>

theorem mutexSignalWait_deadline_exact:
  assumes "0 \<le> sint (extractNanoseconds pTimeOut)"
      and "sint (extractNanoseconds pTimeOut) < 1000000000"
      and "0 \<le> sint (extractNanoseconds currentEpochTime)"
      and "sint (extractNanoseconds currentEpochTime) < 1000000000"
  shows "sint (tv_sec (mutexSignalWait_tout pTimeOut currentEpochTime)) * 1000000000
           + sint (tv_nsec (mutexSignalWait_tout pTimeOut currentEpochTime)) =
         sint (nanoseconds pTimeOut) + sint (nanoseconds currentEpochTime)
       \<and> 0 \<le> sint (tv_nsec (mutexSignalWait_tout pTimeOut currentEpochTime))
       \<and> sint (tv_nsec (mutexSignalWait_tout pTimeOut currentEpochTime)) < 1000000000"
  using assms tout_total [of pTimeOut currentEpochTime]
    tout_nsec_normalized [of pTimeOut currentEpochTime]
  by simp

theorem mutexSignalWait_deadline_exact_witness:
  "0 \<le> sint (extractNanoseconds (Time 1500000000))
   \<and> sint (extractNanoseconds (Time 1500000000)) < 1000000000
   \<and> 0 \<le> sint (extractNanoseconds (Time 1700000000999999999))
   \<and> sint (extractNanoseconds (Time 1700000000999999999)) < 1000000000
   \<and> sint (tv_sec (mutexSignalWait_tout (Time 1500000000) (Time 1700000000999999999)))
        * 1000000000
      + sint (tv_nsec (mutexSignalWait_tout (Time 1500000000) (Time 1700000000999999999)))
      = 1700000002499999999
   \<and> 0 \<le> sint (tv_nsec (mutexSignalWait_tout (Time 1500000000) (Time 1700000000999999999)))
   \<and> sint (tv_nsec (mutexSignalWait_tout (Time 1500000000) (Time 1700000000999999999)))
        < 1000000000"
proof -
  have a: "sint (extractNanoseconds (Time 1500000000)) = 500000000"
    by (simp add: sint_extract signed_modulo_int_def)
  have b: "sint (extractNanoseconds (Time 1700000000999999999)) = 999999999"
    by (simp add: sint_extract signed_modulo_int_def)
  show ?thesis
    using mutexSignalWait_deadline_exact [of "Time 1500000000" "Time 1700000000999999999"]
    by (simp add: a b)
qed

text \<open>
  C6. The timed \<open>mutexSignalWait\<close> hands \<open>pthread_cond_timedwait\<close> a deadline whose
  nanosecond count is the sum of the duration \<open>pTimeOut\<close> and the separately captured
  \<open>currentEpochTime\<close>, and it returns normally when that call returns 0 or
  \<open>ETIMEDOUT\<close>; it throws only for the other return codes.
\<close>

theorem mutexSignalWait_timed_outcomes:
  "\<exists>tout.
     sint (tv_sec tout) * 1000000000 + sint (tv_nsec tout) =
       sint (nanoseconds pTimeOut) + sint (nanoseconds currentEpochTime)
   \<and> mutexSignalWait_timed ETIMEDOUT pthread_cond_timedwait signal lockedMutex
         pTimeOut currentEpochTime =
       (if pthread_cond_timedwait signal lockedMutex tout = 0
           \<or> pthread_cond_timedwait signal lockedMutex tout = ETIMEDOUT
        then Inr () else Inl (RunTimeException 277 None))"
  by (rule exI [of _ "mutexSignalWait_tout pTimeOut currentEpochTime"])
     (simp add: tout_total mutexSignalWait_timed_def Let_def)

theorem mutexSignalWait_timed_outcomes_witness:
  "mutexSignalWait_timed 110 (\<lambda>s m t. 110) () () (Time 50000000) (Time 1700000000000000000)
     = Inr ()
   \<and> mutexSignalWait_timed 110 (\<lambda>s m t. 0) () () (Time 50000000) (Time 1700000000000000000)
     = Inr ()
   \<and> mutexSignalWait_timed 110 (\<lambda>s m t. 22) () () (Time 50000000) (Time 1700000000000000000)
     = Inl (RunTimeException 277 None)"
  using
    mutexSignalWait_timed_outcomes [of "Time 50000000" "Time 1700000000000000000" 110
      "\<lambda>s m t. 110" "()" "()"]
    mutexSignalWait_timed_outcomes [of "Time 50000000" "Time 1700000000000000000" 110
      "\<lambda>s m t. 0" "()" "()"]
    mutexSignalWait_timed_outcomes [of "Time 50000000" "Time 1700000000000000000" 110
      "\<lambda>s m t. 22" "()" "()"]
  by auto

subsection \<open>HighResolutionTime\<close>

text \<open>
  C8. \<open>HighResolutionTime::operator()\<close> reads \<open>CLOCK_MONOTONIC\<close>. It throws a
  \<open>RunTimeException\<close> exactly when \<open>clock_gettime\<close> returns nonzero; otherwise it
  returns the \<open>Time\<close> of \<open>tv_sec * 1000000000 + tv_nsec\<close> in \<open>int64_t\<close> arithmetic,
  which is that number of nanoseconds whenever the number fits in an \<open>int64_t\<close>.
\<close>

theorem HighResolutionTime_result:
  assumes "clock_gettime CLOCK_MONOTONIC = (rc, t)"
  shows "((\<exists>e. HighResolutionTime clock_gettime = Inl e) \<longleftrightarrow> rc \<noteq> 0)
       \<and> (rc \<noteq> 0 \<longrightarrow> HighResolutionTime clock_gettime = Inl (RunTimeException 93 None))
       \<and> (rc = 0 \<longrightarrow>
            HighResolutionTime clock_gettime = Inr (Time (tv_sec t * 1000000000 + tv_nsec t)))
       \<and> (rc = 0
            \<and> - 9223372036854775808 \<le> sint (tv_sec t) * 1000000000 + sint (tv_nsec t)
            \<and> sint (tv_sec t) * 1000000000 + sint (tv_nsec t) < 9223372036854775808 \<longrightarrow>
            (\<exists>T. HighResolutionTime clock_gettime = Inr T
               \<and> sint (nanoseconds T) = sint (tv_sec t) * 1000000000 + sint (tv_nsec t)))"
  using assms by (auto simp: HighResolutionTime_def word_sum_sint)

theorem HighResolutionTime_result_witness:
  "HighResolutionTime
     (\<lambda>c. case c of CLOCK_MONOTONIC \<Rightarrow> (0, \<lparr>tv_sec = 12, tv_nsec = 345\<rparr>)
               | CLOCK_REALTIME \<Rightarrow> (0, \<lparr>tv_sec = 1700000000, tv_nsec = 0\<rparr>))
     = Inr (Time 12000000345)
   \<and> HighResolutionTime (\<lambda>c. (- 1, \<lparr>tv_sec = 0, tv_nsec = 0\<rparr>))
     = Inl (RunTimeException 93 None)"
  using
    HighResolutionTime_result
      [of "\<lambda>c. case c of CLOCK_MONOTONIC \<Rightarrow> (0, \<lparr>tv_sec = 12, tv_nsec = 345\<rparr>)
                       | CLOCK_REALTIME \<Rightarrow> (0, \<lparr>tv_sec = 1700000000, tv_nsec = 0\<rparr>)"
          0 "\<lparr>tv_sec = 12, tv_nsec = 345\<rparr>"]
    HighResolutionTime_result
      [of "\<lambda>c. (- 1, \<lparr>tv_sec = 0, tv_nsec = 0\<rparr>)" "- 1" "\<lparr>tv_sec = 0, tv_nsec = 0\<rparr>"]
  by simp

text \<open>
  The conversion keeps the order of two normalised readings that fit: a later reading
  of the monotonic clock gives a later \<open>Time\<close>.
\<close>

lemma HighResolutionTime_order:
  fixes s1 n1 s2 n2 :: int64_t
  assumes "0 \<le> sint s1" "sint s2 \<le> 9223372035"
      and "0 \<le> sint n1" "sint n1 < 1000000000" "0 \<le> sint n2" "sint n2 < 1000000000"
      and "sint s1 < sint s2 \<or> (sint s1 = sint s2 \<and> sint n1 \<le> sint n2)"
  shows "sint (s1 * 1000000000 + n1) \<le> sint (s2 * 1000000000 + n2)"
proof -
  have "sint (s1 * 1000000000 + n1) = sint s1 * 1000000000 + sint n1"
    using assms by (intro word_sum_sint) auto
  moreover have "sint (s2 * 1000000000 + n2) = sint s2 * 1000000000 + sint n2"
    using assms by (intro word_sum_sint) auto
  ultimately show ?thesis
    using assms by auto
qed

subsection \<open>alignMalloc\<close>

text \<open>
  C10. \<open>alignMalloc\<close> returns the allocated pointer when \<open>posix_memalign\<close> returns 0,
  throws \<open>std::bad_alloc\<close> when it fails with \<open>ENOMEM\<close>, and throws a
  \<open>RunTimeException\<close> for every other nonzero code; a pointer comes back only when
  the call returned 0.
\<close>

theorem alignMalloc_outcomes:
  assumes "posix_memalign alignement sz = (cc, ret)"
  shows "(cc = 0 \<longrightarrow> alignMalloc ENOMEM posix_memalign alignement sz = Inr ret)
       \<and> (cc \<noteq> 0 \<and> cc = ENOMEM \<longrightarrow>
            alignMalloc ENOMEM posix_memalign alignement sz = Inl bad_alloc)
       \<and> (cc \<noteq> 0 \<and> cc \<noteq> ENOMEM \<longrightarrow>
            alignMalloc ENOMEM posix_memalign alignement sz = Inl (RunTimeException 152 None))
       \<and> ((\<exists>p. alignMalloc ENOMEM posix_memalign alignement sz = Inr p) \<longleftrightarrow> cc = 0)"
  using assms by (auto simp: alignMalloc_def)

theorem alignMalloc_outcomes_witness:
  "alignMalloc 12 (\<lambda>a s. (0, 4096::nat)) 64 256 = Inr 4096
   \<and> alignMalloc 12 (\<lambda>a s. (12, 0::nat)) 64 256 = Inl bad_alloc
   \<and> alignMalloc 12 (\<lambda>a s. (22, 0::nat)) 64 256 = Inl (RunTimeException 152 None)"
  using
    alignMalloc_outcomes [of "\<lambda>a s. (0, 4096::nat)" 64 256 0 4096 12]
    alignMalloc_outcomes [of "\<lambda>a s. (12, 0::nat)" 64 256 12 0 12]
    alignMalloc_outcomes [of "\<lambda>a s. (22, 0::nat)" 64 256 22 0 12]
  by simp

subsection \<open>Failures of mutex and condition-variable operations\<close>

text \<open>
  Every mutex and condition-variable operation defined in the header whose C library
  call returns nonzero throws a \<open>RunTimeException\<close>; none returns normally.
  \<open>mutexDestroy\<close>, \<open>mutexLock\<close> and \<open>mutexUnlock\<close> put the system error text of the
  return code into the exception.
\<close>

lemma mutex_signal_failures_raise:
  "(pthread_mutex_destroy m \<noteq> 0 \<longrightarrow>
      mutexDestroy systemErrorToString pthread_mutex_destroy m =
        Inl (RunTimeException 206 (Some (systemErrorToString (pthread_mutex_destroy m)))))
 \<and> (pthread_mutex_lock m \<noteq> 0 \<longrightarrow>
      mutexLock systemErrorToString pthread_mutex_lock m =
        Inl (RunTimeException 215 (Some (systemErrorToString (pthread_mutex_lock m)))))
 \<and> (pthread_mutex_unlock m \<noteq> 0 \<longrightarrow>
      mutexUnlock systemErrorToString pthread_mutex_unlock m =
        Inl (RunTimeException 238 (Some (systemErrorToString (pthread_mutex_unlock m)))))
 \<and> (fst (pthread_cond_init ()) \<noteq> 0 \<longrightarrow>
      (\<exists>e. mutexSignalCreate pthread_cond_init = Inl e))
 \<and> (pthread_cond_destroy c \<noteq> 0 \<longrightarrow>
      (\<exists>e. mutexSignalDestroy pthread_cond_destroy c = Inl e))"
  by (auto simp: mutexDestroy_def mutexLock_def mutexUnlock_def mutexSignalCreate_def
        mutexSignalDestroy_def Let_def split: prod.splits)

text \<open>
  The five condition-variable wrappers test the return code without keeping it, so the
  exception they throw has no message, whatever the nonzero return code.
\<close>

lemma signal_wrappers_no_message:
  "fst (pthread_cond_init ()) \<noteq> 0 \<Longrightarrow>
     message (projl (mutexSignalCreate pthread_cond_init)) = None"
  "pthread_cond_destroy c \<noteq> 0 \<Longrightarrow>
     message (projl (mutexSignalDestroy pthread_cond_destroy c)) = None"
  "pthread_cond_wait c m \<noteq> 0 \<Longrightarrow>
     message (projl (mutexSignalWait pthread_cond_wait c m)) = None"
  "pthread_cond_timedwait c m (mutexSignalWait_tout d e) \<noteq> 0 \<Longrightarrow>
   pthread_cond_timedwait c m (mutexSignalWait_tout d e) \<noteq> ETIMEDOUT \<Longrightarrow>
     message (projl (mutexSignalWait_timed ETIMEDOUT pthread_cond_timedwait c m d e)) = None"
  "pthread_cond_signal c \<noteq> 0 \<Longrightarrow>
     message (projl (mutexSignalNotify pthread_cond_signal c)) = None"
  by (simp_all add: mutexSignalCreate_def mutexSignalDestroy_def mutexSignalWait_def
        mutexSignalWait_timed_def mutexSignalNotify_def Let_def case_prod_beta)

text \<open>
  C7. A failing creation or destruction of a mutex or of a condition variable is to be
  reported by an exception that carries the system error text of the return code.
  \<open>mutexDestroy\<close> does so: when \<open>pthread_mutex_destroy\<close> returns 16, the exception
  carries the text of 16. \<open>mutexSignalCreate\<close> and \<open>mutexSignalDestroy\<close> do not:
  when \<open>pthread_cond_init\<close> returns 12 and when \<open>pthread_cond_destroy\<close> returns 16,
  the exception thrown has no message, and the return code is lost.
\<close>

theorem mutexSignal_failure_drops_error_text:
  "mutexSignalCreate (\<lambda>u. (12, ())) = Inl (RunTimeException 247 None)
 \<and> mutexSignalDestroy (\<lambda>c::unit. 16) () = Inl (RunTimeException 256 None)
 \<and> mutexDestroy (\<lambda>cc. if cc = 16 then ''Device or resource busy'' else ''Unknown error'')
       (\<lambda>m::unit. 16) ()
     = Inl (RunTimeException 206 (Some ''Device or resource busy''))"
  by (simp add: mutexSignalCreate_def mutexSignalDestroy_def mutexDestroy_def)

section \<open>Properties of the scheduling and reference core\<close>

subsection \<open>Invalidation is permanent\<close>

text \<open>
  Two facts hold of every registry reached from the initial one: every id in the table
  is below \<open>next_id\<close>, hence \<open>register\<close> never hands out an id twice; and no operation
  sets a cleared liveness flag again.
\<close>

lemma apply_op_bounded:
  assumes "\<forall>k e. table r k = Some e \<longrightarrow> k < next_id r"
  shows "\<forall>k e. table (apply_op op r) k = Some e \<longrightarrow> k < next_id (apply_op op r)"
proof (cases op)
  case (Register w)
  then show ?thesis
    using assms by (auto simp: register_def less_Suc_eq)
next
  case (Resolve j)
  then show ?thesis
    using assms by simp
next
  case (Invalidate j)
  then show ?thesis
    using assms by (auto simp: invalidate_def split: option.splits if_splits)
qed

lemma run_ops_bounded:
  assumes "\<forall>k e. table r k = Some e \<longrightarrow> k < next_id r"
  shows "\<forall>k e. table (run_ops ops r) k = Some e \<longrightarrow> k < next_id (run_ops ops r)"
  using assms unfolding run_ops_def
proof (induction ops arbitrary: r)
  case Nil
  then show ?case by simp
next
  case (Cons op ops)
  from apply_op_bounded [OF Cons.prems] show ?case
    by (simp add: Cons.IH)
qed

lemma apply_op_dead:
  assumes "\<forall>k e. table r k = Some e \<longrightarrow> k < next_id r"
      and "i < next_id r" and "\<forall>e. table r i = Some e \<longrightarrow> \<not> live e"
  shows "i < next_id (apply_op op r)"
    and "\<forall>e. table (apply_op op r) i = Some e \<longrightarrow> \<not> live e"
proof -
  show "i < next_id (apply_op op r)"
    using assms(2) by (cases op) (simp_all add: register_def invalidate_def split: option.splits)
  show "\<forall>e. table (apply_op op r) i = Some e \<longrightarrow> \<not> live e"
  proof (cases op)
    case (Register w)
    then show ?thesis
      using assms(2,3) by (simp add: register_def)
  next
    case (Resolve j)
    then show ?thesis
      using assms(3) by simp
  next
    case (Invalidate j)
    then show ?thesis
      using assms(3) by (auto simp: invalidate_def split: option.splits if_splits)
  qed
qed

lemma run_ops_dead:
  assumes "\<forall>k e. table r k = Some e \<longrightarrow> k < next_id r"
      and "i < next_id r" and "\<forall>e. table r i = Some e \<longrightarrow> \<not> live e"
  shows "\<forall>e. table (run_ops ops r) i = Some e \<longrightarrow> \<not> live e"
  using assms unfolding run_ops_def
proof (induction ops arbitrary: r)
  case Nil
  then show ?case by simp
next
  case (Cons op ops)
  have a: "\<forall>k e. table (apply_op op r) k = Some e \<longrightarrow> k < next_id (apply_op op r)"
    by (rule apply_op_bounded [OF Cons.prems(1)])
  have b: "i < next_id (apply_op op r)"
    by (rule apply_op_dead(1) [OF Cons.prems])
  have c: "\<forall>e. table (apply_op op r) i = Some e \<longrightarrow> \<not> live e"
    by (rule apply_op_dead(2) [OF Cons.prems])
  show ?case
    using Cons.IH [OF a b c] by simp
qed

lemma register_fresh:
  assumes "\<forall>k e. table r k = Some e \<longrightarrow> k < next_id r"
  shows "table r (fst (register w r)) = None"
proof (cases "table r (next_id r)")
  case None
  then show ?thesis by (simp add: register_def)
next
  case (Some e)
  with assms have "next_id r < next_id r" by blast
  then show ?thesis by simp
qed

lemma invalidate_dead:
  "\<forall>e. table (invalidate i r) i = Some e \<longrightarrow> \<not> live e"
proof (cases "table r i")
  case None
  then show ?thesis by (simp add: invalidate_def)
next
  case (Some e)
  then show ?thesis by (simp add: invalidate_def)
qed

lemma invalidate_next_id: "next_id (invalidate i r) = next_id r"
  by (simp add: invalidate_def split: option.splits)

lemma invalidate_bounded:
  assumes "\<forall>k e. table r k = Some e \<longrightarrow> k < next_id r"
  shows "\<forall>k e. table (invalidate i r) k = Some e \<longrightarrow> k < next_id (invalidate i r)"
  using apply_op_bounded [OF assms, of "Invalidate i"] by simp

text \<open>
  C1. For every actor id (an id that has an entry in the registry), once
  \<open>invalidate(id)\<close> has completed, every later \<open>resolve(id)\<close> returns NotFound,
  whatever registrations, resolutions and invalidations the threads make in between.
\<close>

theorem invalidate_is_permanent:
  assumes "i \<in> dom (table (run_ops before registry_init))"
  shows "resolve (run_ops after (invalidate i (run_ops before registry_init))) i = NotFound"
proof -
  let ?r = "run_ops before registry_init"
  have b: "\<forall>k e. table ?r k = Some e \<longrightarrow> k < next_id ?r"
    by (rule run_ops_bounded) (simp add: registry_init_def)
  have "i < next_id (invalidate i ?r)"
    using b assms by (auto simp: invalidate_next_id)
  with invalidate_bounded [OF b]
  have "\<forall>e. table (run_ops after (invalidate i ?r)) i = Some e \<longrightarrow> \<not> live e"
    using invalidate_dead [of i ?r] by (rule run_ops_dead)
  then show ?thesis
    by (simp add: resolve_def split: option.splits)
qed



theorem invalidate_is_permanent_witness:
  "1 \<in> dom (table (run_ops [Register 1, Register 2] registry_init))
   \<and> resolve (run_ops [Register 1, Register 2] registry_init) 1 = LiveHandle 1 2
   \<and> resolve (run_ops [Register 7, Resolve 1, Invalidate 0, Register 3]
        (invalidate 1 (run_ops [Register 1, Register 2] registry_init))) 1 = NotFound"
proof -
  have d: "1 \<in> dom (table (run_ops [Register 1, Register 2] registry_init))"
    by (simp add: run_ops_def register_def registry_init_def)
  have l: "resolve (run_ops [Register 1, Register 2] registry_init) 1 = LiveHandle 1 2"
    by (simp add: run_ops_def register_def registry_init_def resolve_def)
  show ?thesis
    using d l invalidate_is_permanent [OF d, of "[Register 7, Resolve 1, Invalidate 0, Register 3]"]
    by simp
qed


subsection \<open>Events are processed in the order of their arrival\<close>

lemma processOne_fields:
  "handled (snd (snd (processOne h a))) @ mailbox (snd (snd (processOne h a))) =
     handled a @ mailbox a"
  "enqueued (snd (snd (processOne h a))) = enqueued a"
  "accepting (snd (snd (processOne h a))) \<Longrightarrow> accepting a"
  by (auto simp: processOne_def split: list.splits prod.splits)

lemma step_actor_inv:
  assumes "handled a @ mailbox a = enqueued a"
  shows "handled (step_actor h op a) @ mailbox (step_actor h op a) = enqueued (step_actor h op a)"
  using assms by (cases op) (simp_all add: deliver_def processOne_fields)

lemma run_actor_inv:
  assumes "handled a @ mailbox a = enqueued a"
  shows "handled (run_actor h ops a) @ mailbox (run_actor h ops a) = enqueued (run_actor h ops a)"
  using assms unfolding run_actor_def
proof (induction ops arbitrary: a)
  case Nil
  then show ?case by simp
next
  case (Cons op ops)
  show ?case
    using Cons.IH [OF step_actor_inv [OF Cons.prems]] by simp
qed

lemma step_actor_accepting:
  "accepting (step_actor h op a) \<Longrightarrow> accepting a"
  by (cases op) (auto simp: deliver_def processOne_fields split: if_splits)

lemma run_actor_accepting:
  "accepting (run_actor h ops a) \<Longrightarrow> accepting a"
  unfolding run_actor_def
proof (induction ops arbitrary: a)
  case Nil
  then show ?case by simp
next
  case (Cons op ops)
  from Cons.prems have "accepting (fold (step_actor h) ops (step_actor h op a))" by simp
  then have "accepting (step_actor h op a)" by (rule Cons.IH)
  then show ?case by (rule step_actor_accepting)
qed

lemma run_actor_enqueued:
  assumes "accepting (run_actor h ops a)"
  shows "enqueued (run_actor h ops a) = enqueued a @ delivered ops"
  using assms
proof (induction ops arbitrary: a)
  case Nil
  then show ?case by (simp add: run_actor_def)
next
  case (Cons op ops)
  have run: "run_actor h (op # ops) a = run_actor h ops (step_actor h op a)"
    by (simp add: run_actor_def)
  with Cons.prems have acc': "accepting (run_actor h ops (step_actor h op a))" by simp
  then have acc: "accepting a"
    using run_actor_accepting step_actor_accepting by blast
  have "enqueued (run_actor h ops (step_actor h op a)) =
          enqueued (step_actor h op a) @ delivered ops"
    using acc' by (rule Cons.IH)
  then show ?case
    using acc run by (cases op) (simp_all add: deliver_def processOne_fields)
qed

lemma run_actor_append:
  "run_actor h (xs @ ys) a = run_actor h ys (run_actor h xs a)"
  by (simp add: run_actor_def)

lemma run_deliver_all:
  assumes "accepting a"
  shows "run_actor h (map Deliver es) a =
           a\<lparr>mailbox := mailbox a @ es, enqueued := enqueued a @ es\<rparr>"
  using assms
proof (induction es arbitrary: a)
  case Nil
  then show ?case by (simp add: run_actor_def)
next
  case (Cons ev es)
  have "run_actor h (map Deliver (ev # es)) a = run_actor h (map Deliver es) (deliver ev a)"
    by (simp add: run_actor_def)
  moreover have "accepting (deliver ev a)"
    using Cons.prems by (simp add: deliver_def)
  ultimately show ?case
    using Cons.IH [of "deliver ev a"] Cons.prems by (simp add: deliver_def)
qed

lemma run_processOne_n:
  "handled (run_actor h (replicate n ProcessOne) a) = handled a @ take n (mailbox a)
   \<and> mailbox (run_actor h (replicate n ProcessOne) a) = drop n (mailbox a)"
proof (induction n arbitrary: a)
  case 0
  then show ?case by (simp add: run_actor_def)
next
  case (Suc n)
  let ?a = "snd (snd (processOne h a))"
  have run: "run_actor h (replicate (Suc n) ProcessOne) a = run_actor h (replicate n ProcessOne) ?a"
    by (simp add: run_actor_def)
  show ?case
  proof (cases "mailbox a")
    case Nil
    then have "?a = a" by (simp add: processOne_def)
    with Suc.IH [of a] Nil run show ?thesis by simp
  next
    case (Cons ev rest)
    then have "handled ?a = handled a @ [ev]" "mailbox ?a = rest"
      by (simp_all add: processOne_def split: prod.splits)
    with Suc.IH [of ?a] Cons run show ?thesis by simp
  qed
qed

text \<open>
  The private state of an actor is the result of running the handlers of the handled
  events, one after another in the order of the log, each on the state that the one
  before it left.
\<close>

lemma step_actor_state:
  assumes "private_state a = foldl (\<lambda>st ev. fst (h ev st)) s0 (handled a)"
  shows "private_state (step_actor h op a) =
           foldl (\<lambda>st ev. fst (h ev st)) s0 (handled (step_actor h op a))"
proof (cases op)
  case (Deliver ev)
  then show ?thesis using assms by (simp add: deliver_def)
next
  case ProcessOne
  show ?thesis
  proof (cases "mailbox a")
    case Nil
    then show ?thesis using assms ProcessOne by (simp add: processOne_def)
  next
    case (Cons ev rest)
    then show ?thesis
      using assms ProcessOne by (simp add: processOne_def case_prod_beta)
  qed
qed

lemma run_actor_state:
  assumes "private_state a = foldl (\<lambda>st ev. fst (h ev st)) s0 (handled a)"
  shows "private_state (run_actor h ops a) =
           foldl (\<lambda>st ev. fst (h ev st)) s0 (handled (run_actor h ops a))"
  using assms unfolding run_actor_def
proof (induction ops arbitrary: a)
  case Nil
  then show ?case by simp
next
  case (Cons op ops)
  show ?case
    using Cons.IH [OF step_actor_state [OF Cons.prems]] by simp
qed

lemma run_deliver_process_mailbox:
  "mailbox (run_actor h (map Deliver es @ replicate n ProcessOne) (new_actor s)) = drop n es"
  "handled (run_actor h (map Deliver es @ replicate n ProcessOne) (new_actor s)) = take n es"
proof -
  have "run_actor h (map Deliver es) (new_actor s) =
          (new_actor s)\<lparr>mailbox := es, enqueued := es\<rparr>"
    using run_deliver_all [of "new_actor s" h es] by (simp add: new_actor_def)
  then show
    "mailbox (run_actor h (map Deliver es @ replicate n ProcessOne) (new_actor s)) = drop n es"
    "handled (run_actor h (map Deliver es @ replicate n ProcessOne) (new_actor s)) = take n es"
    using run_processOne_n [of h n "(new_actor s)\<lparr>mailbox := es, enqueued := es\<rparr>"]
    by (simp_all add: run_actor_append new_actor_def)
qed

lemma processOne_head:
  assumes "mailbox a = ev # rest"
  shows "fst (processOne h a) = (rest \<noteq> [])"
    and "fst (snd (processOne h a)) = snd (h ev (private_state a))"
  using assms by (simp_all add: processOne_def case_prod_beta)

text \<open>
  C3. For every sequence of calls on one actor, the events whose handlers
  \<open>processOne\<close> has executed, followed by the events still pending, are the events
  enqueued, in the order of enqueueing; as long as the actor accepts events these are
  all the events delivered; and the private state is what the handlers of the executed
  events produce when run in that order. In particular, after events \<open>es\<close> have been
  delivered to a new actor, \<open>n\<close> calls of \<open>processOne\<close> have run the handlers of the
  first \<open>n\<close> of them in the order of \<open>es\<close>, and the next call runs the handler of
  event number \<open>n\<close> on the state they left, hands its requests to the Worker and
  returns whether more events remain.
\<close>

theorem processOne_fifo:
  "handled (run_actor h ops (new_actor s)) @ mailbox (run_actor h ops (new_actor s)) =
     enqueued (run_actor h ops (new_actor s))
 \<and> (accepting (run_actor h ops (new_actor s)) \<longrightarrow>
      enqueued (run_actor h ops (new_actor s)) = delivered ops)
 \<and> private_state (run_actor h ops (new_actor s)) =
      foldl (\<lambda>st ev. fst (h ev st)) s (handled (run_actor h ops (new_actor s)))
 \<and> handled (run_actor h (map Deliver es @ replicate n ProcessOne) (new_actor s)) = take n es
 \<and> private_state (run_actor h (map Deliver es @ replicate n ProcessOne) (new_actor s)) =
      foldl (\<lambda>st ev. fst (h ev st)) s (take n es)
 \<and> (n < length es \<longrightarrow>
      fst (processOne h (run_actor h (map Deliver es @ replicate n ProcessOne) (new_actor s))) =
        (Suc n < length es)
    \<and> fst (snd (processOne h
        (run_actor h (map Deliver es @ replicate n ProcessOne) (new_actor s)))) =
        snd (h (es ! n) (foldl (\<lambda>st ev. fst (h ev st)) s (take n es))))"
proof -
  let ?f = "\<lambda>st ev. fst (h ev st)"
  let ?a = "run_actor h (map Deliver es @ replicate n ProcessOne) (new_actor s)"
  have inv: "handled (run_actor h ops (new_actor s)) @ mailbox (run_actor h ops (new_actor s)) =
          enqueued (run_actor h ops (new_actor s))"
    by (rule run_actor_inv) (simp add: new_actor_def)
  have enq: "accepting (run_actor h ops (new_actor s)) \<longrightarrow>
          enqueued (run_actor h ops (new_actor s)) = delivered ops"
    using run_actor_enqueued [of h ops "new_actor s"] by (simp add: new_actor_def)
  have st: "private_state (run_actor h xs (new_actor s)) =
              foldl ?f s (handled (run_actor h xs (new_actor s)))" for xs
    by (rule run_actor_state) (simp add: new_actor_def)
  have hd: "handled ?a = take n es" and mb: "mailbox ?a = drop n es"
    by (rule run_deliver_process_mailbox)+
  have ps: "private_state ?a = foldl ?f s (take n es)"
    using st [of "map Deliver es @ replicate n ProcessOne"] by (simp only: hd)
  have nxt: "fst (processOne h ?a) = (Suc n < length es)
           \<and> fst (snd (processOne h ?a)) = snd (h (es ! n) (foldl ?f s (take n es)))"
    if "n < length es"
  proof -
    from that have "mailbox ?a = es ! n # drop (Suc n) es"
      by (simp add: mb Cons_nth_drop_Suc)
    from processOne_head [OF this, of h] show ?thesis
      by (auto simp: ps)
  qed
  show ?thesis
    using inv enq st [of ops] hd ps nxt by blast
qed


theorem processOne_fifo_witness:
  "handled (run_actor (\<lambda>ev s. (10 * s + ev, if ev = 2 then [SendEvent 7 ev] else []))
      [Deliver 1, Deliver 2, ProcessOne, Deliver 3, ProcessOne, ProcessOne] (new_actor (0::nat)))
     = [1, 2, 3::nat]
 \<and> accepting (run_actor (\<lambda>ev s. (10 * s + ev, if ev = 2 then [SendEvent 7 ev] else []))
      [Deliver 1, Deliver 2, ProcessOne, Deliver 3, ProcessOne, ProcessOne] (new_actor (0::nat)))
 \<and> enqueued (run_actor (\<lambda>ev s. (10 * s + ev, if ev = 2 then [SendEvent 7 ev] else []))
      [Deliver 1, Deliver 2, ProcessOne, Deliver 3, ProcessOne, ProcessOne] (new_actor (0::nat)))
     = [1, 2, 3::nat]
 \<and> private_state (run_actor (\<lambda>ev s. (10 * s + ev, if ev = 2 then [SendEvent 7 ev] else []))
      [Deliver 1, Deliver 2, ProcessOne, Deliver 3, ProcessOne, ProcessOne] (new_actor (0::nat)))
     = 123
 \<and> handled (run_actor (\<lambda>ev s. (10 * s + ev, if ev = 2 then [SendEvent 7 ev] else []))
      (map Deliver [3, 2, 1] @ replicate 1 ProcessOne) (new_actor (0::nat)))
     = [3::nat]
 \<and> private_state (run_actor (\<lambda>ev s. (10 * s + ev, if ev = 2 then [SendEvent 7 ev] else []))
      (map Deliver [3, 2, 1] @ replicate 1 ProcessOne) (new_actor (0::nat)))
     = 3
 \<and> processOne (\<lambda>ev s. (10 * s + ev, if ev = 2 then [SendEvent 7 ev] else []))
      (run_actor (\<lambda>ev s. (10 * s + ev, if ev = 2 then [SendEvent 7 ev] else []))
         (map Deliver [3, 2, 1] @ replicate 1 ProcessOne) (new_actor (0::nat)))
     = (True, [SendEvent 7 2],
        \<lparr>mailbox = [1], accepting = True, private_state = 32, enqueued = [3, 2, 1],
         handled = [3, 2]\<rparr>)"
proof -
  let ?h = "\<lambda>(ev::nat) (s::nat). (10 * s + ev, if ev = 2 then [SendEvent 7 ev] else [])"
  let ?ops = "[Deliver 1, Deliver 2, ProcessOne, Deliver 3, ProcessOne, ProcessOne :: nat actor_op]"
  have m: "mailbox (run_actor ?h ?ops (new_actor 0)) = []"
    by (simp add: run_actor_def new_actor_def deliver_def processOne_def)
  have a: "accepting (run_actor ?h ?ops (new_actor 0))"
    by (simp add: run_actor_def new_actor_def deliver_def processOne_def)
  have p: "processOne ?h (run_actor ?h (map Deliver [3, 2, 1] @ replicate 1 ProcessOne)
             (new_actor 0))
           = (True, [SendEvent 7 2],
              \<lparr>mailbox = [1], accepting = True, private_state = 32, enqueued = [3, 2, 1],
               handled = [3, 2]\<rparr>)"
    by (simp add: run_actor_def new_actor_def deliver_def processOne_def)
  show ?thesis
    using m a p
      processOne_fifo [where h = ?h and ops = ?ops and s = 0 and n = 1 and es = "[3, 2, 1]"]
    by simp
qed

subsection \<open>Engine.stop\<close>





















end
